theory Spec2Isabelle
  imports Main "HOL-Library.Sublist" "HOL-Library.Multiset"
begin

section \<open>Strings and the helpers of scripts/helpers/utils.js\<close>

text \<open>
  A JavaScript string is modelled as a \<^typ>\<open>string\<close>: one \<^typ>\<open>char\<close> per code unit,
  for code units below 256 (declaration files and identifiers are ASCII).
\<close>

text \<open>\<^verbatim>\<open>addPrefix(prefix, separator, value)\<close>: the template literal
  \<^verbatim>\<open>`${prefix}${separator}${value}`\<close>.\<close>

definition addPrefix :: "string \<Rightarrow> string \<Rightarrow> string \<Rightarrow> string" where
  "addPrefix pre separator v = pre @ separator @ v"

text \<open>\<^verbatim>\<open>getUnique(arr)\<close> is \<^verbatim>\<open>Array.from(new Set(arr))\<close>: a Set keeps the
  insertion order of the first occurrence of each element.\<close>

definition setAdd :: "'a \<Rightarrow> 'a list \<Rightarrow> 'a list" where
  "setAdd x acc = (if x \<in> set acc then acc else acc @ [x])"

definition getUnique :: "'a list \<Rightarrow> 'a list" where
  "getUnique arr = fold setAdd arr []"

text \<open>White space as \<^verbatim>\<open>String.prototype.trim\<close> sees it, among the code units below 256:
  TAB, LF, VT, FF, CR, SP and NBSP.\<close>

definition isWhiteSpace :: "char \<Rightarrow> bool" where
  "isWhiteSpace c = (of_char c \<in> {9, 10, 11, 12, 13, 32, 160 :: nat})"

definition trim :: "string \<Rightarrow> string" where
  "trim s = rev (dropWhile isWhiteSpace (rev (dropWhile isWhiteSpace s)))"

text \<open>The class \<^verbatim>\<open>\w\<close> of a regular expression without the unicode flag.\<close>

definition isWordChar :: "char \<Rightarrow> bool" where
  "isWordChar c = (let n = (of_char c :: nat) in
     (48 \<le> n \<and> n \<le> 57) \<or> (65 \<le> n \<and> n \<le> 90) \<or> n = 95 \<or> (97 \<le> n \<and> n \<le> 122))"

text \<open>\<^verbatim>\<open>Array.prototype.join\<close>.\<close>

fun join :: "string \<Rightarrow> string list \<Rightarrow> string" where
  "join separator [] = []"
| "join separator [x] = x"
| "join separator (x # y # ys) = x @ separator @ join separator (y # ys)"

text \<open>
  \<^verbatim>\<open>GetSubstitution\<close>, the expansion of a replacement text for a string pattern (which
  has no captures): \<^verbatim>\<open>$$\<close> is a dollar sign, \<^verbatim>\<open>$&\<close> the matched text, \<^verbatim>\<open>$`\<close> the text
  before the match and \<^verbatim>\<open>$'\<close> the text after it, all of the original string; any other
  code unit, also a dollar sign before something else, stands for itself.
\<close>

fun getSubstitution :: "string \<Rightarrow> string \<Rightarrow> string \<Rightarrow> string \<Rightarrow> string" where
  "getSubstitution matched preceding following [] = []"
| "getSubstitution matched preceding following [c] = [c]"
| "getSubstitution matched preceding following (c # d # rest) =
     (if c = CHR 0x24 then
        (if d = CHR 0x24 then CHR 0x24 # getSubstitution matched preceding following rest
         else if d = CHR 0x26 then matched @ getSubstitution matched preceding following rest
         else if d = CHR 0x60 then preceding @ getSubstitution matched preceding following rest
         else if d = CHR 0x27 then following @ getSubstitution matched preceding following rest
         else c # getSubstitution matched preceding following (d # rest))
      else c # getSubstitution matched preceding following (d # rest))"

text \<open>\<^verbatim>\<open>String.prototype.replaceAll(pattern, replacement)\<close> with a string pattern:
  the occurrences are found from left to right, each search resuming behind the previous
  occurrence; an empty pattern matches in front of every code unit and at the end.
  \<open>preceding\<close> is the part of the original string that the scan has passed.\<close>

function replaceAllFrom :: "string \<Rightarrow> string \<Rightarrow> string \<Rightarrow> string \<Rightarrow> string" where
  "replaceAllFrom pat rep preceding s =
     (if pat = [] then
        getSubstitution [] preceding s rep @
          (case s of [] \<Rightarrow> [] | c # cs \<Rightarrow> c # replaceAllFrom pat rep (preceding @ [c]) cs)
      else (case s of
              [] \<Rightarrow> []
            | c # cs \<Rightarrow>
                if prefix pat s
                then getSubstitution pat preceding (drop (length pat) s) rep @
                       replaceAllFrom pat rep (preceding @ pat) (drop (length pat) s)
                else c # replaceAllFrom pat rep (preceding @ [c]) cs))"
  by pat_completeness auto
termination
  by (relation "measure (\<lambda>(pat, rep, preceding, s). length s)") auto

declare replaceAllFrom.simps [simp del]

definition replaceAll :: "string \<Rightarrow> string \<Rightarrow> string \<Rightarrow> string" where
  "replaceAll pat rep s = replaceAllFrom pat rep [] s"

section \<open>The internal type registry and the type patcher\<close>

text \<open>The seed of \<^verbatim>\<open>ProgramGenerator.internalTypes\<close>, in the order of the source.\<close>

definition internalTypes :: "string list" where
  "internalTypes =
     [''Static'', ''TSchema'', ''TMappedResult'', ''TEnumKey'', ''TEnumValue'',
      ''TTemplateLiteral'', ''TMappedKey'', ''TLiteralValue'', ''TMappedFunction'',
      ''TMapped'', ''TProperties'', ''TIndexPropertyKeys'', ''TTemplateLiteralKind'']"

text \<open>
  \<^verbatim>\<open>internalTypePattern\<close> is \<^verbatim>\<open>new RegExp(this.internalTypes.join("|"), "g")\<close>: the
  tokens are joined as they are, so what a token holds is pattern syntax. The model reads
  the fragment of the pattern language that identifiers can spell: an alternation
  (\<^verbatim>\<open>|\<close>) of sequences of pattern characters, which match themselves, and of \<^verbatim>\<open>$\<close>,
  which matches at the end of the input only and takes nothing. Any other syntax
  character (\<^verbatim>\<open>^ \ . * + ? ( ) [ ] { }\<close>) puts the pattern outside the model, where
  the constructor throws a SyntaxError or matches by rules that are not modelled: the
  result is \<open>None\<close> then, and nothing is stated about such a registry.
\<close>

datatype atom = PatternCharacter char | EndOfInput

type_synonym regex = "atom list list"

definition isSyntaxCharacter :: "char \<Rightarrow> bool" where
  "isSyntaxCharacter c = (c \<in> set ''^$.*+?()[]{}|'' \<or> c = CHR 0x5C)"

definition parseAtom :: "char \<Rightarrow> atom option" where
  "parseAtom c =
     (if c = CHR 0x24 then Some EndOfInput
      else if isSyntaxCharacter c then None
      else Some (PatternCharacter c))"

fun parseAlternative :: "string \<Rightarrow> atom list option" where
  "parseAlternative [] = Some []"
| "parseAlternative (c # cs) =
     (case parseAtom c of
        None \<Rightarrow> None
      | Some alt \<Rightarrow> (case parseAlternative cs of None \<Rightarrow> None | Some alts \<Rightarrow> Some (alt # alts)))"

fun parseDisjunction :: "string list \<Rightarrow> regex option" where
  "parseDisjunction [] = Some []"
| "parseDisjunction (t # ts) =
     (case parseAlternative t of
        None \<Rightarrow> None
      | Some alt \<Rightarrow> (case parseDisjunction ts of None \<Rightarrow> None | Some alts \<Rightarrow> Some (alt # alts)))"

text \<open>The alternatives of a pattern source: the texts between the bars.\<close>

fun splitAlternatives :: "string \<Rightarrow> string list" where
  "splitAlternatives [] = [[]]"
| "splitAlternatives (c # cs) =
     (if c = CHR 0x7C then [] # splitAlternatives cs
      else (case splitAlternatives cs of
              [] \<Rightarrow> [[c]]
            | t # ts \<Rightarrow> (c # t) # ts))"

definition RegExp :: "string \<Rightarrow> regex option" where
  "RegExp src = parseDisjunction (splitAlternatives src)"

definition internalTypePattern :: "string list \<Rightarrow> regex option" where
  "internalTypePattern toks = RegExp (join [CHR 0x7C] toks)"

text \<open>
  One alternative at the start of \<open>s\<close>: the text it matches there, if it matches. The
  pattern matches at a position by its first alternative, in the order of the source, that
  matches there.
\<close>

fun matchAlternative :: "atom list \<Rightarrow> string \<Rightarrow> string option" where
  "matchAlternative [] s = Some []"
| "matchAlternative (PatternCharacter c # alts) [] = None"
| "matchAlternative (PatternCharacter c # alts) (d # ds) =
     (if c = d
      then (case matchAlternative alts ds of None \<Rightarrow> None | Some m \<Rightarrow> Some (c # m))
      else None)"
| "matchAlternative (EndOfInput # alts) s = (if s = [] then matchAlternative alts s else None)"

fun regExpExec :: "regex \<Rightarrow> string \<Rightarrow> string option" where
  "regExpExec [] s = None"
| "regExpExec (alt # alts) s =
     (case matchAlternative alt s of Some m \<Rightarrow> Some m | None \<Rightarrow> regExpExec alts s)"

text \<open>\<^verbatim>\<open>value.matchAll(pattern)\<close> with the global flag, mapped to the matched texts:
  the search resumes behind each match (one code unit further after an empty match) and
  moves one code unit forward where the pattern does not match.\<close>

function matchAll :: "regex \<Rightarrow> string \<Rightarrow> string list" where
  "matchAll r s =
     (case s of
        [] \<Rightarrow> (case regExpExec r [] of Some m \<Rightarrow> [m] | None \<Rightarrow> [])
      | c # cs \<Rightarrow>
          (case regExpExec r s of
             Some m \<Rightarrow> m # matchAll r (drop (max 1 (length m)) s)
           | None \<Rightarrow> matchAll r cs))"
  by pat_completeness auto
termination
  by (relation "measure (\<lambda>(r, s). length s)") auto

declare matchAll.simps [simp del]

text \<open>\<^verbatim>\<open>ProgramGenerator.patchType\<close>, for a generator whose registry is \<open>toks\<close>.\<close>

definition patchStep :: "string list \<Rightarrow> string \<Rightarrow> string \<Rightarrow> string" where
  "patchStep toks item patch =
     (if item \<in> set toks then replaceAll item (addPrefix ''typebox'' ''.'' item) patch
      else patch)"

definition patchType :: "string list \<Rightarrow> string \<Rightarrow> string option" where
  "patchType toks v =
     (case internalTypePattern toks of
        None \<Rightarrow> None
      | Some r \<Rightarrow>
          (let items = getUnique (matchAll r v);
               patch = fold (patchStep toks) items v
           in Some (trim patch)))"




section \<open>Declarations, as the TypeScript compiler hands them to the generator\<close>

text \<open>
  A \<^verbatim>\<open>ts.ParameterDeclaration\<close> with the text of its name node (\<open>None\<close> when the
  property \<^verbatim>\<open>name\<close> is undefined), a class member, a top-level node of a source file
  and a source file. Only what the generator reads is kept. The records \<open>named_method\<close>
  and \<open>builder_class\<close> are the typings \<^verbatim>\<open>NamedMethodDeclaration\<close> and
  \<^verbatim>\<open>NamedClassDeclaration\<close> of the source: declarations whose name is present.
\<close>

record parameter =
  p_name :: "string option"

record named_method =
  nm_name :: string
  nm_parameters :: "parameter list"

datatype member =
    MethodDeclaration "string option" "parameter list"
  | OtherMember

datatype node =
    ClassDeclaration "string option" "member list"
  | OtherNode

record source =
  fileName :: string
  fullText :: string
  children :: "node list"

record builder_class =
  bc_name :: string
  bc_members :: "member list"

datatype error = TypeError

section \<open>Class Method\<close>

record method_rec =
  m_name :: string
  m_description :: string
  m_declarations :: "named_method list"
  m_names :: "string list"

text \<open>\<^verbatim>\<open>Method.init(generator, name)\<close>, that is \<^verbatim>\<open>new Method(name, generator)\<close>.\<close>

definition init :: "string \<Rightarrow> method_rec" where
  "init name =
     \<lparr>m_name = name,
      m_description = ''Creates an schema for a '' @ name @ '' type.'',
      m_declarations = [],
      m_names = []\<rparr>"

text \<open>The texts of the named parameters of the declarations, overload by overload:
  \<^verbatim>\<open>declarations.map(pickProperty("parameters")).flat().filter(hasProperty("name"))
  .map(pickProperty("name"))\<close> and \<^verbatim>\<open>name.getText()\<close>.\<close>

definition parameterTexts :: "named_method list \<Rightarrow> string list" where
  "parameterTexts ds = List.map_filter p_name (concat (map nm_parameters ds))"

definition step1_addParametersNames :: "method_rec \<Rightarrow> method_rec" where
  "step1_addParametersNames m =
     m\<lparr>m_names := fold setAdd (parameterTexts (m_declarations m)) (m_names m)\<rparr>"

definition addDeclarations :: "named_method list \<Rightarrow> method_rec \<Rightarrow> method_rec" where
  "addDeclarations ds m = m\<lparr>m_declarations := m_declarations m @ ds\<rparr>"

definition triggerInitTasks :: "method_rec \<Rightarrow> method_rec" where
  "triggerInitTasks m = step1_addParametersNames m"

text \<open>
  \<^verbatim>\<open>utils.Jsdoc\<close>: the delimiters, and the description template
  \<^verbatim>\<open>" * {{description}}"\<close>, whose rendering puts the method's description in the place of
  the tag.
\<close>

definition Jsdoc_start :: string where "Jsdoc_start = ''/**''"
definition Jsdoc_end :: string where "Jsdoc_end = '' */''"
definition Jsdoc_emptyLine :: string where "Jsdoc_emptyLine = '' *''"

definition Jsdoc_description_render :: "method_rec \<Rightarrow> string" where
  "Jsdoc_description_render m = '' * '' @ m_description m"

record template_data =
  td_name :: string
  td_comment :: string
  td_parameters :: string

definition getTemplateData :: "method_rec \<Rightarrow> template_data" where
  "getTemplateData m =
     (let commentLines = [Jsdoc_start] @ [Jsdoc_description_render m, Jsdoc_emptyLine] @ [Jsdoc_end]
      in \<lparr>td_name = m_name m,
          td_comment = join [CHR 0x0A] commentLines,
          td_parameters = join '', '' (m_names m)\<rparr>)"

section \<open>Class ProgramGenerator\<close>

definition config_dir :: string where
  "config_dir = ''node_modules/@sinclair/typebox/build/import/type/type''"

definition config_builders :: "string list" where
  "config_builders = [''JavaScriptTypeBuilder'', ''JsonTypeBuilder'']"

definition config_rootFiles :: "string list" where
  "config_rootFiles = [config_dir @ ''/json.d.mts'', config_dir @ ''/javascript.d.mts'']"

definition isRootFileSource :: "source \<Rightarrow> bool" where
  "isRootFileSource src = (fileName src \<in> set config_rootFiles)"

text \<open>\<^verbatim>\<open>isClassDeclaration(node)\<close> and \<^verbatim>\<open>isBuilderClassDeclaration(node)\<close>, the two
  tests of \<^verbatim>\<open>#fillBuilders\<close>, in that order; the result is the class that is pushed.\<close>

fun builderOf :: "node \<Rightarrow> builder_class option" where
  "builderOf (ClassDeclaration (Some n) ms) =
     (if n \<in> set config_builders then Some \<lparr>bc_name = n, bc_members = ms\<rparr> else None)"
| "builderOf (ClassDeclaration None ms) = None"
| "builderOf OtherNode = None"

record generator =
  builders :: "builder_class list"
  g_internalTypes :: "string list"
  methods :: "method_rec list"
  sources :: "source list"

text \<open>The field initialisers of the class: the generator before its constructor body
  runs, for a program whose source files are \<open>program\<close>.\<close>

definition newGenerator :: "source list \<Rightarrow> generator" where
  "newGenerator program =
     \<lparr>builders = [], g_internalTypes = internalTypes, methods = [],
      sources = filter isRootFileSource program\<rparr>"

definition fillBuilders :: "generator \<Rightarrow> generator" where
  "fillBuilders g =
     g\<lparr>builders := builders g @ List.map_filter builderOf (concat (map children (sources g)))\<rparr>"

text \<open>
  The pattern \<^verbatim>\<open>/\w+Options /g\<close> at the start of \<open>s\<close>: \<^verbatim>\<open>\w+\<close> is greedy, it takes the
  whole run of word characters and gives code units back one at a time, down to one,
  until \<^verbatim>\<open>Options\<close> and a space follow. The result is the number of code units that
  \<^verbatim>\<open>\w+\<close> keeps.
\<close>

definition optionsPattern :: "string \<Rightarrow> nat option" where
  "optionsPattern s =
     find (\<lambda>j. prefix ''Options '' (drop j s)) (rev [1..<Suc (length (takeWhile isWordChar s))])"

function matchAllOptions :: "string \<Rightarrow> string list" where
  "matchAllOptions s =
     (case s of
        [] \<Rightarrow> []
      | c # cs \<Rightarrow>
          (case optionsPattern s of
             Some j \<Rightarrow> take (j + 8) s # matchAllOptions (drop (j + 8) s)
           | None \<Rightarrow> matchAllOptions cs))"
  by pat_completeness auto
termination
  by (relation "measure length") auto

declare matchAllOptions.simps [simp del]

definition fillOptionTypeNames :: "generator \<Rightarrow> generator" where
  "fillOptionTypeNames g =
     (let fullText = concat (map (\<lambda>src. fullText src @ [CHR 0x0A]) (sources g))
      in g\<lparr>g_internalTypes :=
              g_internalTypes g @ getUnique (map trim (matchAllOptions fullText))\<rparr>)"

text \<open>\<^verbatim>\<open>.filter(ts.isMethodDeclaration).filter(utils.hasProperty("name"))\<close>, with the text
  of the name node that \<^verbatim>\<open>getNameText\<close> reads later.\<close>

fun namedMethodOf :: "member \<Rightarrow> named_method option" where
  "namedMethodOf (MethodDeclaration (Some n) ps) = Some \<lparr>nm_name = n, nm_parameters = ps\<rparr>"
| "namedMethodOf (MethodDeclaration None ps) = None"
| "namedMethodOf OtherMember = None"

definition rawMethodsOf :: "builder_class list \<Rightarrow> named_method list" where
  "rawMethodsOf bs = List.map_filter namedMethodOf (concat (map bc_members bs))"

text \<open>
  \<^verbatim>\<open>Array.prototype.sort(compareFn)\<close> is stable, and a stable sort has one result:
  an insertion sort gives it. \<open>cmp a b\<close> stands for \<^verbatim>\<open>a.localeCompare(b)\<close>, which the
  host's collation decides; \<open>a\<close> goes before \<open>b\<close> when the result is not positive.
\<close>

fun insertBy :: "('a \<Rightarrow> 'a \<Rightarrow> int) \<Rightarrow> 'a \<Rightarrow> 'a list \<Rightarrow> 'a list" where
  "insertBy cmp x [] = [x]"
| "insertBy cmp x (y # ys) = (if cmp x y \<le> 0 then x # y # ys else y # insertBy cmp x ys)"

definition sortBy :: "('a \<Rightarrow> 'a \<Rightarrow> int) \<Rightarrow> 'a list \<Rightarrow> 'a list" where
  "sortBy cmp xs = foldr (insertBy cmp) xs []"

text \<open>
  The own property names of \<^verbatim>\<open>Object.prototype\<close>. \<^verbatim>\<open>groupBy\<close> collects into the
  object literal \<^verbatim>\<open>{}\<close>, which inherits them: for such a key \<^verbatim>\<open>ret[key] ??= []\<close>
  yields the inherited value, which has no \<^verbatim>\<open>push\<close>, and the call throws a TypeError.
\<close>

definition objectPrototypeKeys :: "string list" where
  "objectPrototypeKeys =
     [''constructor'', ''__defineGetter__'', ''__defineSetter__'', ''hasOwnProperty'',
      ''__lookupGetter__'', ''__lookupSetter__'', ''isPrototypeOf'', ''propertyIsEnumerable'',
      ''toString'', ''valueOf'', ''__proto__'', ''toLocaleString'']"

fun groupByFrom ::
  "(string \<rightharpoonup> named_method list) \<Rightarrow> named_method list \<Rightarrow> error + (string \<rightharpoonup> named_method list)"
where
  "groupByFrom ret [] = Inr ret"
| "groupByFrom ret (el # els) =
     (let key = nm_name el in
      if key \<in> set objectPrototypeKeys then Inl TypeError
      else groupByFrom (ret(key \<mapsto> (case ret key of None \<Rightarrow> [] | Some arr \<Rightarrow> arr) @ [el])) els)"

definition groupBy :: "named_method list \<Rightarrow> error + (string \<rightharpoonup> named_method list)" where
  "groupBy iterable = groupByFrom Map.empty iterable"

text \<open>
  The last loop of \<^verbatim>\<open>#fillMethods\<close>:
  \<^verbatim>\<open>method.addDeclarations(...groupings[method.name]); method.triggerInitTasks()\<close>.
  Where \<^verbatim>\<open>groupings\<close> has no group under the name, the spread of \<^verbatim>\<open>undefined\<close>
  throws a TypeError.
\<close>

fun attachDeclarations ::
  "(string \<rightharpoonup> named_method list) \<Rightarrow> method_rec list \<Rightarrow> error + method_rec list"
where
  "attachDeclarations groupings [] = Inr []"
| "attachDeclarations groupings (m # ms) =
     (case groupings (m_name m) of
        None \<Rightarrow> Inl TypeError
      | Some ds \<Rightarrow>
          (case attachDeclarations groupings ms of
             Inl e \<Rightarrow> Inl e
           | Inr ms' \<Rightarrow> Inr (triggerInitTasks (addDeclarations ds m) # ms')))"

definition methodNames :: "(string \<Rightarrow> string \<Rightarrow> int) \<Rightarrow> named_method list \<Rightarrow> string list" where
  "methodNames cmp rawMethods = sortBy cmp (getUnique (map nm_name rawMethods))"

definition fillMethods :: "(string \<Rightarrow> string \<Rightarrow> int) \<Rightarrow> generator \<Rightarrow> error + generator" where
  "fillMethods cmp g =
     (let rawMethods = rawMethodsOf (builders g);
          names = methodNames cmp rawMethods;
          g1 = g\<lparr>g_internalTypes := fold setAdd (map (addPrefix ''T'' []) names) (g_internalTypes g)\<rparr>
      in case groupBy rawMethods of
           Inl e \<Rightarrow> Inl e
         | Inr groupings \<Rightarrow>
             (case attachDeclarations groupings (methods g1 @ map init names) of
                Inl e \<Rightarrow> Inl e
              | Inr ms \<Rightarrow> Inr (g1\<lparr>methods := ms\<rparr>)))"

text \<open>The constructor: \<^verbatim>\<open>this.#fillBuilders().#fillOptionTypeNames().#fillMethods()\<close>.\<close>

definition construct :: "(string \<Rightarrow> string \<Rightarrow> int) \<Rightarrow> source list \<Rightarrow> error + generator" where
  "construct cmp program = fillMethods cmp (fillOptionTypeNames (fillBuilders (newGenerator program)))"

text \<open>
  \<^verbatim>\<open>writeToFile\<close>: the content that is written. \<open>render\<close> stands for
  \<^verbatim>\<open>mustache.render\<close> with the template file and the tags of \<^verbatim>\<open>renderTemplate\<close>,
  applied to the value of \<^verbatim>\<open>methods\<close>; \<open>format\<close> for \<^verbatim>\<open>prettier.format\<close> with the
  options resolved for the path.
\<close>

definition templateMethods :: "generator \<Rightarrow> template_data list" where
  "templateMethods g = map getTemplateData (methods g)"

definition writeToFile ::
  "(template_data list \<Rightarrow> string) \<Rightarrow> (string \<Rightarrow> string) \<Rightarrow> generator \<Rightarrow> string" where
  "writeToFile render format g = format (render (templateMethods g))"

text \<open>A whole run of the generator over the program's source files.\<close>

definition run ::
  "(string \<Rightarrow> string \<Rightarrow> int) \<Rightarrow> (template_data list \<Rightarrow> string) \<Rightarrow> (string \<Rightarrow> string) \<Rightarrow>
     source list \<Rightarrow> error + string" where
  "run cmp render format program =
     (case construct cmp program of
        Inl e \<Rightarrow> Inl e
      | Inr g \<Rightarrow> Inr (writeToFile render format g))"

section \<open>Notions used to state the properties\<close>

text \<open>
  The merged parameter list in the words of the specification: each distinct text once, in
  the order in which the texts are first seen.
\<close>

fun firstSeen :: "'a list \<Rightarrow> 'a list" where
  "firstSeen [] = []"
| "firstSeen (x # xs) = x # firstSeen (filter (\<lambda>y. y \<noteq> x) xs)"

text \<open>
  The parameter-name texts of the overloads in the words of the specification: overload
  by overload in discovery order, within an overload parameter by parameter, a parameter
  without a name giving nothing.
\<close>

fun parameterNames :: "parameter list \<Rightarrow> string list" where
  "parameterNames [] = []"
| "parameterNames (p # ps) =
     (case p_name p of None \<Rightarrow> parameterNames ps | Some t \<Rightarrow> t # parameterNames ps)"

fun overloadParameterNames :: "named_method list \<Rightarrow> string list" where
  "overloadParameterNames [] = []"
| "overloadParameterNames (d # ds) = parameterNames (nm_parameters d) @ overloadParameterNames ds"



text \<open>The declaration group of a method name: the declarations that bear the name, in
  discovery order; and the method that the generator builds for a name.\<close>

definition groupOf :: "string \<Rightarrow> named_method list \<Rightarrow> named_method list" where
  "groupOf n raw = filter (\<lambda>d. nm_name d = n) raw"

definition methodFor :: "named_method list \<Rightarrow> string \<Rightarrow> method_rec" where
  "methodFor raw n = triggerInitTasks (addDeclarations (groupOf n raw) (init n))"

text \<open>
  A comparator that \<^verbatim>\<open>Array.prototype.sort\<close> can sort by: any two elements are
  comparable and the order is transitive.
\<close>

definition consistentComparator :: "('a \<Rightarrow> 'a \<Rightarrow> int) \<Rightarrow> bool" where
  "consistentComparator cmp =
     ((\<forall>a b. cmp a b \<le> 0 \<or> cmp b a \<le> 0) \<and>
      (\<forall>a b c. cmp a b \<le> 0 \<longrightarrow> cmp b c \<le> 0 \<longrightarrow> cmp a c \<le> 0))"

text \<open>A sample collation, by code units, and a sample program: two root files with the
  two builder classes, and a file of the program that is not a root file.\<close>

fun compareUnits :: "nat list \<Rightarrow> nat list \<Rightarrow> int" where
  "compareUnits [] [] = 0"
| "compareUnits [] (y # ys) = - 1"
| "compareUnits (x # xs) [] = 1"
| "compareUnits (x # xs) (y # ys) =
     (if x < y then - 1 else if y < x then 1 else compareUnits xs ys)"

definition compareCodeUnits :: "string \<Rightarrow> string \<Rightarrow> int" where
  "compareCodeUnits a b = compareUnits (map of_char a) (map of_char b)"

definition exampleJson :: source where
  "exampleJson =
     \<lparr>fileName = config_dir @ ''/json.d.mts'',
      fullText = ''Object(props: TProperties, options?: ObjectOptions ): TObject;'',
      children =
        [OtherNode,
         ClassDeclaration (Some ''JsonTypeBuilder'')
           [OtherMember, MethodDeclaration (Some ''Object'') [\<lparr>p_name = Some ''props''\<rparr>]]]\<rparr>"

definition exampleJavaScript :: source where
  "exampleJavaScript =
     \<lparr>fileName = config_dir @ ''/javascript.d.mts'',
      fullText = ''Number(options?: NumberOptions ): TNumber; ObjectOptions '',
      children =
        [ClassDeclaration (Some ''JavaScriptTypeBuilder'')
           [MethodDeclaration (Some ''Object'')
              [\<lparr>p_name = Some ''props''\<rparr>, \<lparr>p_name = Some ''options''\<rparr>],
            MethodDeclaration (Some ''Number'') [],
            MethodDeclaration None []],
         ClassDeclaration (Some ''Helper'') [MethodDeclaration (Some ''Hidden'') []],
         ClassDeclaration None []]\<rparr>"

definition exampleLib :: source where
  "exampleLib =
     \<lparr>fileName = ''lib.d.ts'',
      fullText = ''interface IntlOptions '',
      children = [ClassDeclaration (Some ''JsonTypeBuilder'') [MethodDeclaration (Some ''Any'') []]]\<rparr>"

definition exampleProgram :: "source list" where
  "exampleProgram = [exampleLib, exampleJson, exampleJavaScript]"

text \<open>A root file whose builder class declares a method named \<^verbatim>\<open>toString\<close>.\<close>

definition exampleToString :: "source list" where
  "exampleToString =
     [\<lparr>fileName = config_dir @ ''/json.d.mts'',
       fullText = ''Any(): TAny; toString(): string;'',
       children =
         [ClassDeclaration (Some ''JsonTypeBuilder'')
            [MethodDeclaration (Some ''Any'') [], MethodDeclaration (Some ''toString'') []]]\<rparr>]"

section \<open>Properties of the helpers\<close>

lemma setAdd_set: "set (setAdd x acc) = insert x (set acc)"
  by (auto simp: setAdd_def)

lemma fold_setAdd_set: "set (fold setAdd xs acc) = set xs \<union> set acc"
  by (induction xs arbitrary: acc) (auto simp: setAdd_set)

lemma fold_setAdd_distinct: "distinct acc \<Longrightarrow> distinct (fold setAdd xs acc)"
  by (induction xs arbitrary: acc) (auto simp: setAdd_def)

lemma fold_setAdd_prefix: "prefix acc (fold setAdd xs acc)"
proof (induction xs arbitrary: acc)
  case Nil
  show ?case by simp
next
  case (Cons x xs)
  have "prefix acc (setAdd x acc)" by (simp add: setAdd_def)
  also have "prefix (setAdd x acc) (fold setAdd xs (setAdd x acc))" by (rule Cons.IH)
  finally show ?case by simp
qed

lemma getUnique_set: "set (getUnique xs) = set xs"
  by (simp add: getUnique_def fold_setAdd_set)

lemma getUnique_distinct: "distinct (getUnique xs)"
  by (simp add: getUnique_def fold_setAdd_distinct)

lemma getUnique_Nil: "getUnique [] = []"
  by (simp add: getUnique_def)

lemma distinct_singleton_set: "distinct xs \<Longrightarrow> set xs = {t} \<Longrightarrow> xs = [t]"
proof (cases xs)
  case Nil
  assume "set xs = {t}"
  with Nil show ?thesis by simp
next
  case (Cons y ys)
  assume d: "distinct xs" and s: "set xs = {t}"
  from s Cons have "y = t" by auto
  moreover from d s Cons \<open>y = t\<close> have "set ys = {}" by (cases ys) auto
  ultimately show ?thesis using Cons by simp
qed


























lemma find_Some_holds: "find P xs = Some x \<Longrightarrow> P x \<and> x \<in> set xs"
  by (induction xs) (auto split: if_splits)












lemma fold_setAdd_firstSeen:
  "fold setAdd xs acc = acc @ firstSeen (filter (\<lambda>x. x \<notin> set acc) xs)"
proof (induction xs arbitrary: acc)
  case Nil
  show ?case by simp
next
  case (Cons x xs)
  show ?case
  proof (cases "x \<in> set acc")
    case True
    with Cons.IH [of acc] show ?thesis by (simp add: setAdd_def)
  next
    case False
    have "filter (\<lambda>y. y \<notin> set (acc @ [x])) xs = filter (\<lambda>y. y \<noteq> x) (filter (\<lambda>y. y \<notin> set acc) xs)"
      by (induction xs) auto
    with False Cons.IH [of "acc @ [x]"] show ?thesis by (simp add: setAdd_def)
  qed
qed

lemma getUnique_firstSeen: "getUnique xs = firstSeen xs"
  by (simp add: getUnique_def fold_setAdd_firstSeen)

lemma fold_setAdd_absorb: "set xs \<subseteq> set acc \<Longrightarrow> fold setAdd xs acc = acc"
  by (induction xs) (auto simp: setAdd_def)

lemma fold_setAdd_idem: "fold setAdd xs (fold setAdd xs acc) = fold setAdd xs acc"
  by (rule fold_setAdd_absorb) (simp add: fold_setAdd_set)

lemma merged_names:
  "m_names (triggerInitTasks (addDeclarations ds (init n))) = fold setAdd (parameterTexts ds) []"
  by (simp add: triggerInitTasks_def step1_addParametersNames_def addDeclarations_def init_def)

lemma groupByFrom_error:
  "\<exists>d\<in>set els. nm_name d \<in> set objectPrototypeKeys \<Longrightarrow> groupByFrom ret els = Inl TypeError"
  by (induction els arbitrary: ret) (auto simp: Let_def)

lemma groupByFrom_result:
  "\<forall>d\<in>set els. nm_name d \<notin> set objectPrototypeKeys \<Longrightarrow>
     groupByFrom ret els =
       Inr (\<lambda>k. if groupOf k els = [] then ret k
                else Some ((case ret k of None \<Rightarrow> [] | Some arr \<Rightarrow> arr) @ groupOf k els))"
proof (induction els arbitrary: ret)
  case Nil
  show ?case by (simp add: groupOf_def)
next
  case (Cons el els)
  let ?ret = "ret(nm_name el \<mapsto> (case ret (nm_name el) of None \<Rightarrow> [] | Some arr \<Rightarrow> arr) @ [el])"
  from Cons.prems have "groupByFrom ret (el # els) = groupByFrom ?ret els"
    by (simp add: Let_def)
  also from Cons.prems have "\<dots> =
      Inr (\<lambda>k. if groupOf k els = [] then ?ret k
                else Some ((case ?ret k of None \<Rightarrow> [] | Some arr \<Rightarrow> arr) @ groupOf k els))"
    by (intro Cons.IH) simp
  also have "(\<lambda>k. if groupOf k els = [] then ?ret k
                else Some ((case ?ret k of None \<Rightarrow> [] | Some arr \<Rightarrow> arr) @ groupOf k els)) =
      (\<lambda>k. if groupOf k (el # els) = [] then ret k
                else Some ((case ret k of None \<Rightarrow> [] | Some arr \<Rightarrow> arr) @ groupOf k (el # els)))"
    by (rule ext) (simp add: groupOf_def)
  finally show ?case .
qed

lemma groupBy_result:
  "\<forall>d\<in>set raw. nm_name d \<notin> set objectPrototypeKeys \<Longrightarrow>
     groupBy raw = Inr (\<lambda>k. if groupOf k raw = [] then None else Some (groupOf k raw))"
  by (simp add: groupBy_def groupByFrom_result cong: if_cong)

lemma groupBy_error:
  "\<exists>d\<in>set raw. nm_name d \<in> set objectPrototypeKeys \<Longrightarrow> groupBy raw = Inl TypeError"
  by (simp add: groupBy_def groupByFrom_error)

lemma attachDeclarations_result:
  "\<forall>m\<in>set ms. groupings (m_name m) \<noteq> None \<Longrightarrow>
     attachDeclarations groupings ms =
       Inr (map (\<lambda>m. triggerInitTasks (addDeclarations (the (groupings (m_name m))) m)) ms)"
  by (induction ms) auto

lemma insertBy_mset: "mset (insertBy cmp x xs) = add_mset x (mset xs)"
  by (induction xs) auto

lemma sortBy_mset: "mset (sortBy cmp xs) = mset xs"
  by (induction xs) (auto simp: sortBy_def insertBy_mset)

lemma sortBy_set: "set (sortBy cmp xs) = set xs"
  by (metis sortBy_mset set_mset_mset)

lemma sortBy_distinct: "distinct (sortBy cmp xs) = distinct xs"
  by (metis sortBy_mset distinct_count_atmost_1 mset_eq_setD count_mset)

lemma insertBy_set: "set (insertBy cmp x xs) = insert x (set xs)"
  by (metis insertBy_mset set_mset_mset set_mset_add_mset_insert)

lemma insertBy_sorted:
  assumes "consistentComparator cmp"
  shows "sorted_wrt (\<lambda>a b. cmp a b \<le> 0) xs \<Longrightarrow> sorted_wrt (\<lambda>a b. cmp a b \<le> 0) (insertBy cmp x xs)"
proof (induction xs)
  case Nil
  show ?case by simp
next
  case (Cons y ys)
  from assms have total: "cmp a b \<le> 0 \<or> cmp b a \<le> 0" for a b
    by (auto simp: consistentComparator_def)
  from assms have trans: "cmp a b \<le> 0 \<Longrightarrow> cmp b c \<le> 0 \<Longrightarrow> cmp a c \<le> 0" for a b c
    unfolding consistentComparator_def by blast
  show ?case
  proof (cases "cmp x y \<le> 0")
    case True
    with Cons.prems trans show ?thesis by auto
  next
    case False
    with total [of x y] have "cmp y x \<le> 0" by simp
    with False Cons show ?thesis by (auto simp: insertBy_set)
  qed
qed

lemma sortBy_sorted:
  "consistentComparator cmp \<Longrightarrow> sorted_wrt (\<lambda>a b. cmp a b \<le> 0) (sortBy cmp xs)"
  by (induction xs) (auto simp: sortBy_def insertBy_sorted)

lemma methodNames_set: "set (methodNames cmp raw) = nm_name ` set raw"
  by (simp add: methodNames_def sortBy_set getUnique_set)

lemma methodNames_distinct: "distinct (methodNames cmp raw)"
  by (simp add: methodNames_def sortBy_distinct getUnique_distinct)

lemma groupOf_nonempty: "n \<in> nm_name ` set raw \<Longrightarrow> groupOf n raw \<noteq> []"
  by (auto simp: groupOf_def filter_empty_conv)

lemma fillMethods_result:
  assumes "\<forall>d\<in>set (rawMethodsOf (builders g)). nm_name d \<notin> set objectPrototypeKeys"
    and "methods g = []"
  shows "fillMethods cmp g =
     Inr (g\<lparr>g_internalTypes :=
              fold setAdd (map (addPrefix ''T'' []) (methodNames cmp (rawMethodsOf (builders g))))
                (g_internalTypes g),
            methods := map (methodFor (rawMethodsOf (builders g)))
                (methodNames cmp (rawMethodsOf (builders g)))\<rparr>)"
proof -
  let ?raw = "rawMethodsOf (builders g)"
  let ?names = "methodNames cmp ?raw"
  let ?grp = "\<lambda>k. if groupOf k ?raw = [] then None else Some (groupOf k ?raw)"
  have g: "groupBy ?raw = Inr ?grp"
    using assms(1) by (rule groupBy_result)
  have "\<forall>m\<in>set (map init ?names). ?grp (m_name m) \<noteq> None"
    by (auto simp: methodNames_set init_def dest: groupOf_nonempty [OF imageI])
  then have "attachDeclarations ?grp (map init ?names) =
      Inr (map (\<lambda>m. triggerInitTasks (addDeclarations (the (?grp (m_name m))) m)) (map init ?names))"
    by (rule attachDeclarations_result)
  also have "map (\<lambda>m. triggerInitTasks (addDeclarations (the (?grp (m_name m))) m)) (map init ?names) =
      map (methodFor ?raw) ?names"
    by (auto simp: methodFor_def methodNames_set init_def dest: groupOf_nonempty [OF imageI])
  finally have a: "attachDeclarations ?grp (map init ?names) = Inr (map (methodFor ?raw) ?names)" .
  show ?thesis
    using g a assms(2) by (simp add: fillMethods_def Let_def)
qed

lemma fillMethods_error:
  assumes "\<exists>d\<in>set (rawMethodsOf (builders g)). nm_name d \<in> set objectPrototypeKeys"
  shows "fillMethods cmp g = Inl TypeError"
  using groupBy_error [OF assms] by (simp add: fillMethods_def Let_def)


lemma compareUnits_total: "compareUnits a b \<le> 0 \<or> compareUnits b a \<le> 0"
  by (induction a b rule: compareUnits.induct) auto

lemma compareUnits_trans:
  "compareUnits a b \<le> 0 \<Longrightarrow> compareUnits b c \<le> 0 \<Longrightarrow> compareUnits a c \<le> 0"
proof (induction a b arbitrary: c rule: compareUnits.induct)
  case 1
  then show ?case by simp
next
  case (2 y ys)
  then show ?case by (cases c) simp_all
next
  case (3 x xs)
  then show ?case by simp
next
  case (4 x xs y ys)
  from "4.prems"(2) obtain z zs where c: "c = z # zs" by (cases c) simp_all
  show ?case
  proof (cases "x < y")
    case True
    with "4.prems"(2) c show ?thesis by (simp split: if_splits)
  next
    case False
    with "4.prems"(1) have xy: "x = y" and r: "compareUnits xs ys \<le> 0"
      by (simp_all split: if_splits)
    show ?thesis
    proof (cases "y < z")
      case True
      with xy c show ?thesis by simp
    next
      case False
      with "4.prems"(2) c have yz: "y = z" and r': "compareUnits ys zs \<le> 0"
        by (simp_all split: if_splits)
      from xy have "\<not> x < y" and "\<not> y < x" by simp_all
      then have "compareUnits xs zs \<le> 0"
        using r r' by (rule "4.IH")
      with xy yz c show ?thesis by simp
    qed
  qed
qed

lemma compareCodeUnits_consistent: "consistentComparator compareCodeUnits"
  unfolding consistentComparator_def compareCodeUnits_def
proof (intro conjI allI impI)
  fix a b c :: string
  show "compareUnits (map of_char a) (map of_char b) \<le> 0 \<or>
      compareUnits (map of_char b) (map of_char a) \<le> 0"
    by (rule compareUnits_total)
  assume "compareUnits (map of_char a) (map of_char b) \<le> 0"
    and "compareUnits (map of_char b) (map of_char c) \<le> 0"
  then show "compareUnits (map of_char a) (map of_char c) \<le> 0"
    by (rule compareUnits_trans)
qed

lemma wordChar_not_space: "isWordChar c \<Longrightarrow> \<not> isWhiteSpace c"
  by (auto simp: isWordChar_def isWhiteSpace_def Let_def)

lemma optionsPattern_Some:
  assumes "optionsPattern s = Some j"
  shows "1 \<le> j \<and> j \<le> length (takeWhile isWordChar s) \<and> prefix ''Options '' (drop j s)"
proof -
  from assms have "prefix ''Options '' (drop j s) \<and>
      j \<in> set (rev [1..<Suc (length (takeWhile isWordChar s))])"
    unfolding optionsPattern_def by (rule find_Some_holds)
  then show ?thesis by auto
qed

lemma take_within_takeWhile:
  "j \<le> length (takeWhile P s) \<Longrightarrow> c \<in> set (take j s) \<Longrightarrow> P c"
proof (induction s arbitrary: j)
  case Nil
  then show ?case by simp
next
  case (Cons x xs)
  show ?case
  proof (cases j)
    case 0
    with Cons.prems show ?thesis by simp
  next
    case (Suc k)
    with Cons.prems(1) have px: "P x" and k: "k \<le> length (takeWhile P xs)"
      by (auto split: if_splits)
    from Cons.prems(2) Suc have "c = x \<or> c \<in> set (take k xs)" by simp
    with px k Cons.IH show ?thesis by blast
  qed
qed

lemma option_match_shape:
  assumes "optionsPattern s = Some j"
  shows "\<exists>w. w \<noteq> [] \<and> (\<forall>c\<in>set w. isWordChar c) \<and> take (j + 8) s = w @ ''Options ''"
proof -
  from optionsPattern_Some [OF assms] have j1: "1 \<le> j"
    and j2: "j \<le> length (takeWhile isWordChar s)"
    and p: "prefix ''Options '' (drop j s)" by blast+
  from p obtain r where r: "drop j s = ''Options '' @ r" by (rule prefixE)
  have "take (j + 8) s = take j s @ take 8 (drop j s)"
    by (rule take_add)
  also have "take 8 (drop j s) = ''Options ''"
    unfolding r by simp
  finally have t: "take (j + 8) s = take j s @ ''Options ''" .
  have w: "\<forall>c\<in>set (take j s). isWordChar c"
  proof
    fix c
    assume "c \<in> set (take j s)"
    with j2 show "isWordChar c" by (rule take_within_takeWhile)
  qed
  from j1 j2 have "s \<noteq> []" by auto
  with j1 have "take j s \<noteq> []" by (cases j) simp_all
  with w t show ?thesis by blast
qed

lemma trim_option_match:
  assumes "w \<noteq> []" and "\<forall>c\<in>set w. isWordChar c"
  shows "trim (w @ ''Options '') = w @ ''Options''"
proof -
  from assms obtain c cs where w: "w = c # cs" by (cases w) auto
  with assms(2) have "\<not> isWhiteSpace c" by (simp add: wordChar_not_space)
  with w have "dropWhile isWhiteSpace (w @ ''Options '') = w @ ''Options ''" by simp
  moreover have "isWhiteSpace CHR '' ''" and "\<not> isWhiteSpace CHR ''s''"
    by (simp_all add: isWhiteSpace_def)
  ultimately show ?thesis by (simp add: trim_def)
qed

lemma matchAllOptions_Nil: "matchAllOptions [] = []"
  by (subst matchAllOptions.simps) simp

lemma matchAllOptions_miss:
  "optionsPattern (c # cs) = None \<Longrightarrow> matchAllOptions (c # cs) = matchAllOptions cs"
  by (subst matchAllOptions.simps) simp

lemma matchAllOptions_hit:
  "optionsPattern (c # cs) = Some j \<Longrightarrow>
     matchAllOptions (c # cs) = take (j + 8) (c # cs) # matchAllOptions (drop (j + 8) (c # cs))"
  by (subst matchAllOptions.simps) simp

lemma matchAllOptions_shape:
  "m \<in> set (matchAllOptions s) \<Longrightarrow>
     \<exists>w. w \<noteq> [] \<and> (\<forall>c\<in>set w. isWordChar c) \<and> m = w @ ''Options ''"
proof (induction s arbitrary: m rule: matchAllOptions.induct)
  case (1 s)
  show ?case
  proof (cases s)
    case Nil
    with 1(3) show ?thesis by (simp add: matchAllOptions_Nil)
  next
    case (Cons c cs)
    show ?thesis
    proof (cases "optionsPattern s")
      case None
      with Cons 1(3) have "m \<in> set (matchAllOptions cs)"
        by (simp add: matchAllOptions_miss)
      with Cons None show ?thesis by (rule 1(1))
    next
      case (Some j)
      with Cons 1(3) have "m = take (j + 8) s \<or> m \<in> set (matchAllOptions (drop (j + 8) s))"
        by (simp add: matchAllOptions_hit)
      then show ?thesis
      proof
        assume "m = take (j + 8) s"
        with option_match_shape [OF Some] show ?thesis by simp
      next
        assume "m \<in> set (matchAllOptions (drop (j + 8) s))"
        with Cons Some show ?thesis by (rule 1(2))
      qed
    qed
  qed
qed

lemma seed_no_Options: "\<forall>t\<in>set internalTypes. \<not> suffix ''Options'' t"
  by code_simp

lemma seed_distinct: "distinct internalTypes"
  by code_simp

lemma option_tokens_fresh:
  assumes "t \<in> set (map trim (matchAllOptions s))"
  shows "t \<notin> set internalTypes"
proof -
  from assms obtain m where "m \<in> set (matchAllOptions s)" and t: "t = trim m" by auto
  then obtain w where "w \<noteq> []" "\<forall>c\<in>set w. isWordChar c" "m = w @ ''Options ''"
    using matchAllOptions_shape by blast
  with t have "t = w @ ''Options''" by (simp add: trim_option_match)
  then have "suffix ''Options'' t" by (simp add: suffix_def)
  with seed_no_Options show ?thesis by blast
qed

lemma fillOptionTypeNames_registry:
  assumes "g_internalTypes g = internalTypes"
  shows "distinct (g_internalTypes (fillOptionTypeNames g))"
    and "prefix internalTypes (g_internalTypes (fillOptionTypeNames g))"
proof -
  obtain new where n: "g_internalTypes (fillOptionTypeNames g) = internalTypes @ getUnique (map trim new)"
    and new: "\<And>t. t \<in> set (map trim new) \<Longrightarrow> t \<notin> set internalTypes"
    using assms option_tokens_fresh by (simp add: fillOptionTypeNames_def Let_def)
  from new have "set internalTypes \<inter> set (getUnique (map trim new)) = {}"
    unfolding getUnique_set by blast
  with n seed_distinct show "distinct (g_internalTypes (fillOptionTypeNames g))"
    by (simp add: getUnique_distinct)
  from n show "prefix internalTypes (g_internalTypes (fillOptionTypeNames g))"
    by simp
qed


lemma methodFor_fields:
  "m_name (methodFor raw n) = n"
  "m_declarations (methodFor raw n) = groupOf n raw"
  by (simp_all add: methodFor_def triggerInitTasks_def step1_addParametersNames_def
      addDeclarations_def init_def)

lemma preparation_fields:
  "methods (fillOptionTypeNames (fillBuilders (newGenerator program))) = []"
  "builders (fillOptionTypeNames (fillBuilders (newGenerator program))) =
     List.map_filter builderOf (concat (map children (filter isRootFileSource program)))"
  "g_internalTypes (fillBuilders (newGenerator program)) = internalTypes"
  by (simp_all add: fillOptionTypeNames_def fillBuilders_def newGenerator_def Let_def)

lemma fillMethods_Inr:
  assumes "fillMethods cmp g = Inr g'" and "methods g = []"
  shows "g' = g\<lparr>g_internalTypes :=
              fold setAdd (map (addPrefix ''T'' []) (methodNames cmp (rawMethodsOf (builders g))))
                (g_internalTypes g),
            methods := map (methodFor (rawMethodsOf (builders g)))
                (methodNames cmp (rawMethodsOf (builders g)))\<rparr>"
proof (cases "\<exists>d\<in>set (rawMethodsOf (builders g)). nm_name d \<in> set objectPrototypeKeys")
  case True
  then have "fillMethods cmp g = Inl TypeError" by (rule fillMethods_error)
  with assms(1) show ?thesis by simp
next
  case False
  then have "\<forall>d\<in>set (rawMethodsOf (builders g)). nm_name d \<notin> set objectPrototypeKeys" by simp
  from fillMethods_result [OF this assms(2), of cmp] assms(1) show ?thesis by simp
qed

lemma fillMethods_names:
  assumes "fillMethods cmp g = Inr g'" and "methods g = []"
  shows "map m_name (methods g') = methodNames cmp (rawMethodsOf (builders g))"
    and "builders g' = builders g"
    and "g_internalTypes g' =
      fold setAdd (map (addPrefix ''T'' []) (methodNames cmp (rawMethodsOf (builders g))))
        (g_internalTypes g)"
    and "methods g' = map (methodFor (rawMethodsOf (builders g)))
        (methodNames cmp (rawMethodsOf (builders g)))"
  unfolding fillMethods_Inr [OF assms]
  by (simp_all add: comp_def methodFor_fields)

lemma example_constructs:
  "\<exists>g. construct compareCodeUnits exampleProgram = Inr g"
proof -
  have "\<forall>d\<in>set (rawMethodsOf (builders (fillOptionTypeNames (fillBuilders (newGenerator exampleProgram))))).
      nm_name d \<notin> set objectPrototypeKeys"
    by code_simp
  from fillMethods_result [OF this preparation_fields(1)] show ?thesis
    by (simp add: construct_def)
qed

lemma parameterTexts_spec: "parameterTexts ds = overloadParameterNames ds"
proof -
  have p: "List.map_filter p_name ps = parameterNames ps" for ps
    by (induction ps) (simp_all add: List.map_filter_simps split: option.splits)
  have a: "List.map_filter f (xs @ ys) = List.map_filter f xs @ List.map_filter f ys"
    for f :: "parameter \<Rightarrow> string option" and xs ys
    by (simp add: List.map_filter_def)
  show ?thesis
    unfolding parameterTexts_def by (induction ds) (simp_all add: List.map_filter_simps a p)
qed

lemma parameterNames_set: "set (parameterNames ps) = {t. \<exists>p\<in>set ps. p_name p = Some t}"
  by (induction ps) (auto split: option.splits)

lemma overloadParameterNames_set:
  "set (overloadParameterNames ds) =
     {t. \<exists>d\<in>set ds. \<exists>p\<in>set (nm_parameters d). p_name p = Some t}"
  by (induction ds) (auto simp: parameterNames_set)



lemma constructed_methods_sorted:
  assumes "consistentComparator cmp" and "construct cmp program = Inr g"
  shows "builders g = List.map_filter builderOf (concat (map children (filter isRootFileSource program))) \<and>
         mset (map m_name (methods g)) = mset_set (nm_name ` set (rawMethodsOf (builders g))) \<and>
         distinct (map m_name (methods g)) \<and>
         sorted_wrt (\<lambda>a b. cmp a b \<le> 0) (map m_name (methods g))"
proof -
  let ?g0 = "fillOptionTypeNames (fillBuilders (newGenerator program))"
  from assms(2) have f: "fillMethods cmp ?g0 = Inr g" by (simp add: construct_def)
  have m: "methods ?g0 = []" by (rule preparation_fields)
  have b: "builders g = builders ?g0" by (rule fillMethods_names(2) [OF f m])
  have n: "map m_name (methods g) = methodNames cmp (rawMethodsOf (builders g))"
    unfolding b by (rule fillMethods_names(1) [OF f m])
  have d: "distinct (map m_name (methods g))"
    unfolding n by (rule methodNames_distinct)
  have "set (map m_name (methods g)) = nm_name ` set (rawMethodsOf (builders g))"
    unfolding n by (rule methodNames_set)
  with d have "mset_set (nm_name ` set (rawMethodsOf (builders g))) = mset (map m_name (methods g))"
    using mset_set_set by metis
  moreover have "sorted_wrt (\<lambda>a b. cmp a b \<le> 0) (map m_name (methods g))"
    unfolding n methodNames_def using assms(1) by (rule sortBy_sorted)
  ultimately show ?thesis using b d by (simp add: preparation_fields)
qed

section \<open>The type patcher\<close>

text \<open>
  C10. \<^verbatim>\<open>patchType\<close> is not idempotent: \<^verbatim>\<open>TSchema\<close> is patched to
  \<^verbatim>\<open>typebox.TSchema\<close>, and patching that output, or any input that is already
  qualified, qualifies the token a second time, so that patching twice differs from
  patching once.
\<close>

theorem patchType_not_idempotent:
  "patchType internalTypes ''TSchema'' = Some ''typebox.TSchema'' \<and>
   patchType internalTypes ''typebox.TSchema'' = Some ''typebox.typebox.TSchema'' \<and>
   Option.bind (patchType internalTypes ''TSchema'') (patchType internalTypes) =
     Some ''typebox.typebox.TSchema'' \<and>
   Option.bind (patchType internalTypes ''TSchema'') (patchType internalTypes) \<noteq>
     patchType internalTypes ''TSchema''"
  by code_simp







section \<open>The method model\<close>

text \<open>
  C3, as stated, fails: the description that the constructor builds reads
  \<^verbatim>\<open>Creates an schema for a Any type.\<close>, with \<^verbatim>\<open>an\<close> and without quotes around the
  name, not the text of the claim.
\<close>

theorem description_counterexample:
  "m_description (init ''Any'') = ''Creates an schema for a Any type.'' \<and>
  m_description (init ''Any'') \<noteq> ''Creates a schema for a `Any` type.''"
  by (simp add: init_def)


text \<open>
  C3, amended. For every method with name \<open>n\<close> the description is exactly
  \<^verbatim>\<open>Creates an schema for a n type.\<close>; attaching declarations and merging parameters
  leave it unchanged, and the documentation block of \<^verbatim>\<open>getTemplateData\<close> is the opening
  delimiter, the line \<^verbatim>\<open> * \<close> followed by the description, an empty comment line and
  the closing delimiter, so the description stands verbatim in the block.
\<close>

theorem description_verbatim:
  "m_description (init n) = ''Creates an schema for a '' @ n @ '' type.'' \<and>
   m_description (triggerInitTasks (addDeclarations ds (init n))) = m_description (init n) \<and>
   td_comment (getTemplateData (triggerInitTasks (addDeclarations ds (init n)))) =
     ''/**'' @ [CHR 0x0A] @ '' * '' @ m_description (init n) @ [CHR 0x0A] @ '' *'' @ [CHR 0x0A] @ '' */'' \<and>
   sublist (m_description (init n)) (td_comment (getTemplateData (triggerInitTasks (addDeclarations ds (init n)))))"
proof -
  have d: "m_description (triggerInitTasks (addDeclarations ds (init n))) = m_description (init n)"
    by (simp add: triggerInitTasks_def step1_addParametersNames_def addDeclarations_def)
  have c: "td_comment (getTemplateData (triggerInitTasks (addDeclarations ds (init n)))) =
     ''/**'' @ [CHR 0x0A] @ '' * '' @ m_description (init n) @ [CHR 0x0A] @ '' *'' @ [CHR 0x0A] @ '' */''"
    by (simp add: getTemplateData_def d Jsdoc_start_def Jsdoc_end_def Jsdoc_emptyLine_def
        Jsdoc_description_render_def)
  have "sublist (m_description (init n)) ((''/**'' @ [CHR 0x0A] @ '' * '') @ m_description (init n) @ ([CHR 0x0A] @ '' *'' @ [CHR 0x0A] @ '' */''))"
    by (rule sublist_appendI)
  with c have s: "sublist (m_description (init n)) (td_comment (getTemplateData (triggerInitTasks (addDeclarations ds (init n)))))"
    by simp
  from d c s show ?thesis by (simp add: init_def)
qed


text \<open>
  C5. After attaching the declarations \<open>ds\<close> to a new method and running the merge step,
  \<^verbatim>\<open>parameters.names\<close> holds the parameter-name texts of the overloads, read overload by
  overload in discovery order and parameter by parameter (\<open>overloadParameterNames\<close>, which
  is what the code's chain of \<^verbatim>\<open>map\<close>, \<^verbatim>\<open>flat\<close> and \<^verbatim>\<open>filter\<close> yields), each distinct
  text once and in first-seen order (\<open>firstSeen\<close>); the list has no duplicates and holds
  exactly the texts of the named parameters of the overloads; and running the merge again
  on the same declarations changes nothing.
\<close>

theorem parameters_merged:
  "parameterTexts ds = overloadParameterNames ds \<and>
   m_names (triggerInitTasks (addDeclarations ds (init n))) = firstSeen (overloadParameterNames ds) \<and>
   distinct (m_names (triggerInitTasks (addDeclarations ds (init n)))) \<and>
   set (m_names (triggerInitTasks (addDeclarations ds (init n)))) =
     {t. \<exists>d\<in>set ds. \<exists>p\<in>set (nm_parameters d). p_name p = Some t} \<and>
   triggerInitTasks (triggerInitTasks (addDeclarations ds (init n))) =
     triggerInitTasks (addDeclarations ds (init n))"
proof -
  let ?m = "triggerInitTasks (addDeclarations ds (init n))"
  have "m_names ?m = firstSeen (overloadParameterNames ds)"
    by (simp add: merged_names fold_setAdd_firstSeen parameterTexts_spec)
  moreover have "distinct (m_names ?m)"
    by (simp add: merged_names fold_setAdd_distinct)
  moreover have "set (m_names ?m) = {t. \<exists>d\<in>set ds. \<exists>p\<in>set (nm_parameters d). p_name p = Some t}"
    by (simp add: merged_names fold_setAdd_set parameterTexts_spec overloadParameterNames_set)
  moreover have "triggerInitTasks ?m = ?m"
  proof -
    have "m_declarations ?m = ds"
      by (simp add: triggerInitTasks_def step1_addParametersNames_def addDeclarations_def init_def)
    then have "fold setAdd (parameterTexts (m_declarations ?m)) (m_names ?m) = m_names ?m"
      by (simp add: merged_names fold_setAdd_idem)
    then show ?thesis
      by (simp add: triggerInitTasks_def [of ?m] step1_addParametersNames_def [of ?m])
  qed
  ultimately show ?thesis by (simp add: parameterTexts_spec)
qed

theorem parameters_merged_witness:
  "overloadParameterNames
     [\<lparr>nm_name = ''Object'', nm_parameters = [\<lparr>p_name = Some ''props''\<rparr>]\<rparr>,
      \<lparr>nm_name = ''Object'',
        nm_parameters = [\<lparr>p_name = Some ''props''\<rparr>, \<lparr>p_name = None\<rparr>, \<lparr>p_name = Some ''options''\<rparr>]\<rparr>,
      \<lparr>nm_name = ''Object'', nm_parameters = [\<lparr>p_name = Some ''options''\<rparr>, \<lparr>p_name = Some ''kind''\<rparr>]\<rparr>] =
     [''props'', ''props'', ''options'', ''options'', ''kind''] \<and>
   m_names (triggerInitTasks (addDeclarations
     [\<lparr>nm_name = ''Object'', nm_parameters = [\<lparr>p_name = Some ''props''\<rparr>]\<rparr>,
      \<lparr>nm_name = ''Object'',
        nm_parameters = [\<lparr>p_name = Some ''props''\<rparr>, \<lparr>p_name = None\<rparr>, \<lparr>p_name = Some ''options''\<rparr>]\<rparr>,
      \<lparr>nm_name = ''Object'', nm_parameters = [\<lparr>p_name = Some ''options''\<rparr>, \<lparr>p_name = Some ''kind''\<rparr>]\<rparr>]
     (init ''Object''))) = [''props'', ''options'', ''kind'']"
proof -
  let ?ds = "[\<lparr>nm_name = ''Object'', nm_parameters = [\<lparr>p_name = Some ''props''\<rparr>]\<rparr>,
      \<lparr>nm_name = ''Object'',
        nm_parameters = [\<lparr>p_name = Some ''props''\<rparr>, \<lparr>p_name = None\<rparr>, \<lparr>p_name = Some ''options''\<rparr>]\<rparr>,
      \<lparr>nm_name = ''Object'', nm_parameters = [\<lparr>p_name = Some ''options''\<rparr>, \<lparr>p_name = Some ''kind''\<rparr>]\<rparr>]"
  have o: "overloadParameterNames ?ds = [''props'', ''props'', ''options'', ''options'', ''kind'']"
    by code_simp
  have f: "firstSeen [''props'', ''props'', ''options'', ''options'', ''kind''] =
      [''props'', ''options'', ''kind'']"
    by code_simp
  from parameters_merged [of ?ds "''Object''"] o f show ?thesis by simp
qed

section \<open>Method collection\<close>



text \<open>
  C6 fails on the code for a builder class that declares a method named like a property
  of \<^verbatim>\<open>Object.prototype\<close>. \<^verbatim>\<open>groupBy\<close> collects into the object literal \<^verbatim>\<open>{}\<close>; for
  the key \<^verbatim>\<open>toString\<close> the expression \<^verbatim>\<open>ret[key] ??= []\<close> yields the inherited function,
  \<^verbatim>\<open>push\<close> is missing and the call throws. The root file below declares the named
  methods \<^verbatim>\<open>Any\<close> and \<^verbatim>\<open>toString\<close>; the constructor aborts with a TypeError, whatever
  the collation, and leaves no methods collection.
\<close>

theorem methods_toString_abort:
  "map nm_name (rawMethodsOf (builders (fillBuilders (newGenerator exampleToString)))) =
     [''Any'', ''toString''] \<and>
   groupBy (rawMethodsOf (builders (fillBuilders (newGenerator exampleToString)))) = Inl TypeError \<and>
   construct cmp exampleToString = Inl TypeError"
proof -
  let ?g = "fillOptionTypeNames (fillBuilders (newGenerator exampleToString))"
  have n: "map nm_name (rawMethodsOf (builders (fillBuilders (newGenerator exampleToString)))) =
      [''Any'', ''toString'']"
    by code_simp
  have "\<exists>d\<in>set (rawMethodsOf (builders (fillBuilders (newGenerator exampleToString)))).
      nm_name d \<in> set objectPrototypeKeys"
    by code_simp
  then have g: "groupBy (rawMethodsOf (builders (fillBuilders (newGenerator exampleToString)))) =
      Inl TypeError"
    by (rule groupBy_error)
  have "\<exists>d\<in>set (rawMethodsOf (builders ?g)). nm_name d \<in> set objectPrototypeKeys"
    by code_simp
  then have "fillMethods cmp ?g = Inl TypeError" by (rule fillMethods_error)
  with n g show ?thesis by (simp add: construct_def)
qed

section \<open>Growth of the registry\<close>

text \<open>
  C7. The registry starts as the seed, which has no duplicates, and \<^verbatim>\<open>#fillBuilders\<close>
  leaves it alone. After the \<^verbatim>\<open>Options\<close> pass the seed is a prefix of the registry, and
  after the method-name pass the registry of the \<^verbatim>\<open>Options\<close> pass is a prefix of the
  final one: tokens are only appended, none is removed or moved. The registry has no
  duplicates in any of these states. Each single addition of the method-name pass keeps
  the registry duplicate-free, extends it, and changes nothing when the token is present.
\<close>

theorem registry_monotonic:
  "g_internalTypes (newGenerator program) = internalTypes \<and>
   g_internalTypes (fillBuilders (newGenerator program)) = internalTypes \<and>
   distinct internalTypes \<and>
   prefix internalTypes (g_internalTypes (fillOptionTypeNames (fillBuilders (newGenerator program)))) \<and>
   distinct (g_internalTypes (fillOptionTypeNames (fillBuilders (newGenerator program)))) \<and>
   (construct cmp program = Inr g \<longrightarrow>
      prefix (g_internalTypes (fillOptionTypeNames (fillBuilders (newGenerator program))))
        (g_internalTypes g) \<and>
      distinct (g_internalTypes g)) \<and>
   (distinct reg \<longrightarrow> distinct (setAdd v reg)) \<and>
   prefix reg (setAdd v reg) \<and>
   (v \<in> set reg \<longrightarrow> setAdd v reg = reg)"
proof -
  let ?g1 = "fillBuilders (newGenerator program)"
  let ?g2 = "fillOptionTypeNames ?g1"
  have s0: "g_internalTypes (newGenerator program) = internalTypes"
    by (simp add: newGenerator_def)
  have s1: "g_internalTypes ?g1 = internalTypes" by (rule preparation_fields)
  have d2: "distinct (g_internalTypes ?g2)" and p2: "prefix internalTypes (g_internalTypes ?g2)"
    using s1 by (rule fillOptionTypeNames_registry)+
  have s3: "prefix (g_internalTypes ?g2) (g_internalTypes g) \<and> distinct (g_internalTypes g)"
    if c: "construct cmp program = Inr g"
  proof -
    from c have f: "fillMethods cmp ?g2 = Inr g" by (simp add: construct_def)
    have m: "methods ?g2 = []" by (rule preparation_fields)
    show ?thesis
      unfolding fillMethods_names(3) [OF f m]
      using d2 by (simp add: fold_setAdd_prefix fold_setAdd_distinct)
  qed
  have a: "(distinct reg \<longrightarrow> distinct (setAdd v reg)) \<and> prefix reg (setAdd v reg) \<and>
      (v \<in> set reg \<longrightarrow> setAdd v reg = reg)"
    by (simp add: setAdd_def)
  from s0 s1 seed_distinct d2 p2 s3 a show ?thesis by blast
qed


theorem registry_monotonic_witness:
  "(\<exists>g. construct compareCodeUnits exampleProgram = Inr g \<and>
      g_internalTypes g = internalTypes @ [''ObjectOptions'', ''NumberOptions'', ''TNumber'', ''TObject''] \<and>
      distinct (g_internalTypes g)) \<and>
   g_internalTypes (fillOptionTypeNames (fillBuilders (newGenerator exampleProgram))) =
     internalTypes @ [''ObjectOptions'', ''NumberOptions''] \<and>
   distinct (internalTypes @ [''ObjectOptions'', ''NumberOptions'']) \<and>
   ''TSchema'' \<in> set internalTypes \<and> setAdd ''TSchema'' internalTypes = internalTypes"
proof -
  from example_constructs obtain g where g: "construct compareCodeUnits exampleProgram = Inr g" ..
  have r2: "g_internalTypes (fillOptionTypeNames (fillBuilders (newGenerator exampleProgram))) =
     internalTypes @ [''ObjectOptions'', ''NumberOptions'']"
    by code_simp
  have r3: "(case construct compareCodeUnits exampleProgram of Inr g \<Rightarrow> g_internalTypes g | Inl e \<Rightarrow> []) =
      internalTypes @ [''ObjectOptions'', ''NumberOptions'', ''TNumber'', ''TObject'']"
    by code_simp
  have t: "''TSchema'' \<in> set internalTypes" by code_simp
  from registry_monotonic [of exampleProgram compareCodeUnits g internalTypes "''TSchema''"] g t
  have "distinct (g_internalTypes g)"
    and "distinct (g_internalTypes (fillOptionTypeNames (fillBuilders (newGenerator exampleProgram))))"
    and "setAdd ''TSchema'' internalTypes = internalTypes"
    by blast+
  with g r2 r3 t show ?thesis by simp
qed


section \<open>The whole run\<close>

text \<open>
  C9. When no class declaration of a root file is selected by the allow-list, construction
  returns a generator whose builders and methods are empty, and the run succeeds: the
  renderer receives an empty list of methods, so the module has no method stub.
\<close>

theorem no_builders_empty_module:
  assumes "\<forall>src\<in>set program. isRootFileSource src \<longrightarrow> (\<forall>n\<in>set (children src). builderOf n = None)"
  shows "\<exists>g. construct cmp program = Inr g \<and> builders g = [] \<and> methods g = [] \<and>
           templateMethods g = [] \<and>
           run cmp render format program = Inr (format (render []))"
proof -
  let ?g = "fillOptionTypeNames (fillBuilders (newGenerator program))"
  from assms have "\<forall>n\<in>set (concat (map children (filter isRootFileSource program))). builderOf n = None"
    by auto
  then have "List.map_filter builderOf (concat (map children (filter isRootFileSource program))) = []"
    by (simp add: List.map_filter_def filter_empty_conv)
  then have b: "builders ?g = []" by (simp add: preparation_fields)
  then have raw: "rawMethodsOf (builders ?g) = []"
    by (simp add: rawMethodsOf_def List.map_filter_simps)
  then have k: "\<forall>d\<in>set (rawMethodsOf (builders ?g)). nm_name d \<notin> set objectPrototypeKeys"
    by simp
  have m: "methods ?g = []" by (rule preparation_fields)
  have n: "methodNames cmp [] = []"
    by (simp add: methodNames_def getUnique_Nil sortBy_def)
  from fillMethods_result [OF k m, of cmp] obtain g where g: "fillMethods cmp ?g = Inr g"
    by blast
  from fillMethods_names(2,4) [OF g m] b raw n have "builders g = []" and "methods g = []"
    by simp_all
  with g show ?thesis
    by (simp add: construct_def run_def writeToFile_def templateMethods_def)
qed


theorem no_builders_empty_module_witness:
  "isRootFileSource exampleJson \<and> \<not> isRootFileSource exampleLib \<and>
   children (exampleJson\<lparr>children := [OtherNode, ClassDeclaration (Some ''Helper'') [MethodDeclaration (Some ''Hidden'') []]]\<rparr>) =
     [OtherNode, ClassDeclaration (Some ''Helper'') [MethodDeclaration (Some ''Hidden'') []]] \<and>
   builderOf OtherNode = None \<and>
   builderOf (ClassDeclaration (Some ''Helper'') [MethodDeclaration (Some ''Hidden'') []]) = None \<and>
   (\<exists>g. construct compareCodeUnits
          [exampleLib, exampleJson\<lparr>children := [OtherNode, ClassDeclaration (Some ''Helper'') [MethodDeclaration (Some ''Hidden'') []]]\<rparr>] = Inr g \<and>
        builders g = [] \<and> methods g = [] \<and> templateMethods g = []) \<and>
   run compareCodeUnits (\<lambda>tds. concat (map td_comment tds)) (\<lambda>content. content)
     [exampleLib, exampleJson\<lparr>children := [OtherNode, ClassDeclaration (Some ''Helper'') [MethodDeclaration (Some ''Hidden'') []]]\<rparr>] = Inr []"
proof -
  let ?src = "exampleJson\<lparr>children := [OtherNode, ClassDeclaration (Some ''Helper'') [MethodDeclaration (Some ''Hidden'') []]]\<rparr>"
  have r: "isRootFileSource exampleJson" "isRootFileSource ?src" "\<not> isRootFileSource exampleLib"
    by code_simp+
  have c: "children ?src = [OtherNode, ClassDeclaration (Some ''Helper'') [MethodDeclaration (Some ''Hidden'') []]]"
    by simp
  have b: "builderOf OtherNode = None"
    "builderOf (ClassDeclaration (Some ''Helper'') [MethodDeclaration (Some ''Hidden'') []]) = None"
    by code_simp+
  have h: "\<forall>src\<in>set [exampleLib, ?src]. isRootFileSource src \<longrightarrow> (\<forall>n\<in>set (children src). builderOf n = None)"
    using r b by simp
  from no_builders_empty_module [OF h, of compareCodeUnits "\<lambda>tds. concat (map td_comment tds)" "\<lambda>content. content"]
    r c b show ?thesis by auto
qed

end
